theory Spec2Isabelle
  imports Main
begin

section \<open>The state of the SnakeGame component (src/components/GameBoard.tsx)\<close>

text \<open>
  \<^verbatim>\<open>type Position = { x: number; y: number }\<close> and
  \<^verbatim>\<open>type Direction = 'UP' | 'DOWN' | 'LEFT' | 'RIGHT'\<close>.
  Coordinates, score and speed are JavaScript numbers that only ever hold
  integers of small size, so they are modelled as \<open>int\<close>.
\<close>

record Position =
  x :: int
  y :: int

datatype Direction = UP | DOWN | LEFT | RIGHT

definition GRID_SIZE :: int where
  "GRID_SIZE = 20"

definition INITIAL_SPEED :: int where
  "INITIAL_SPEED = 150"

text \<open>
  The eight \<^verbatim>\<open>useState\<close> cells of the component, in the order of their declaration
  (lines 12 to 19). The field \<open>gameOver\<close> is the flag that the specification calls isOver.
\<close>

record GameState =
  snake :: "Position list"
  food :: Position
  direction :: Direction
  gameOver :: bool
  isPaused :: bool
  score :: int
  highScore :: int
  speed :: int

text \<open>The initialisers of the \<^verbatim>\<open>useState\<close> calls: the state at mount.\<close>

definition initialState :: GameState where
  "initialState =
     \<lparr>snake = [\<lparr>x = 10, y = 10\<rparr>], food = \<lparr>x = 5, y = 5\<rparr>, direction = RIGHT,
      gameOver = False, isPaused = True, score = 0, highScore = 0, speed = INITIAL_SPEED\<rparr>"

section \<open>Food\<close>

text \<open>
  \<^verbatim>\<open>generateFood\<close> returns a cell whose coordinates are
  \<^verbatim>\<open>Math.floor(Math.random() * GRID_SIZE)\<close>: some cell of the grid. The model takes the
  cells that the successive calls return as an input, a list of rolls; \<open>inGrid\<close> says
  that a cell is one that the generator can return.
\<close>

definition inGrid :: "Position \<Rightarrow> bool" where
  "inGrid pos \<longleftrightarrow> 0 \<le> x pos \<and> x pos < GRID_SIZE \<and> 0 \<le> y pos \<and> y pos < GRID_SIZE"

text \<open>
  \<^verbatim>\<open>isPositionOccupied\<close> (lines 30 to 32) reads the variable \<^verbatim>\<open>snake\<close> of the render
  in which the closure was created; that list is the first argument here.
\<close>

definition isPositionOccupied :: "Position list \<Rightarrow> Position \<Rightarrow> bool" where
  "isPositionOccupied seen pos =
     list_ex (\<lambda>segment. x segment = x pos \<and> y segment = y pos) seen"

text \<open>
  The loop of lines 118 to 121: roll, and roll again while the cell is occupied.
  The rolls are consumed from the front of the list. \<open>None\<close> is the loop that has not
  returned when the rolls are used up: on a board where every roll is occupied the
  source spins forever.
\<close>

fun placeFood :: "Position list \<Rightarrow> Position list \<Rightarrow> Position option" where
  "placeFood seen [] = None"
| "placeFood seen (newFood # rolls) =
     (if isPositionOccupied seen newFood then placeFood seen rolls else Some newFood)"

section \<open>Restart\<close>

text \<open>\<^verbatim>\<open>initGame\<close> (lines 35 to 43); \<open>roll\<close> is the result of its one call of generateFood.\<close>

definition initGame :: "Position \<Rightarrow> GameState \<Rightarrow> GameState" where
  "initGame roll s =
     s\<lparr>snake := [\<lparr>x = 10, y = 10\<rparr>], direction := RIGHT, food := roll, gameOver := False,
       score := 0, speed := INITIAL_SPEED, isPaused := False\<rparr>"

section \<open>Keyboard and buttons\<close>

text \<open>The values of \<^verbatim>\<open>e.key\<close> that the switch distinguishes; every other key is \<open>OtherKey\<close>.\<close>

datatype Key = ArrowUp | ArrowDown | ArrowLeft | ArrowRight | Space | OtherKey

text \<open>
  \<^verbatim>\<open>handleKeyDown\<close> (lines 47 to 67). The listener is registered again whenever
  \<^verbatim>\<open>direction\<close> or \<^verbatim>\<open>gameOver\<close> changes, so it reads their current values.
\<close>

definition handleKeyDown :: "Key \<Rightarrow> GameState \<Rightarrow> GameState" where
  "handleKeyDown k s =
     (if gameOver s then s
      else case k of
        ArrowUp \<Rightarrow> if direction s \<noteq> DOWN then s\<lparr>direction := UP\<rparr> else s
      | ArrowDown \<Rightarrow> if direction s \<noteq> UP then s\<lparr>direction := DOWN\<rparr> else s
      | ArrowLeft \<Rightarrow> if direction s \<noteq> RIGHT then s\<lparr>direction := LEFT\<rparr> else s
      | ArrowRight \<Rightarrow> if direction s \<noteq> LEFT then s\<lparr>direction := RIGHT\<rparr> else s
      | Space \<Rightarrow> s\<lparr>isPaused := \<not> isPaused s\<rparr>
      | OtherKey \<Rightarrow> s)"

text \<open>The onClick of the Play/Pause button (line 207): \<^verbatim>\<open>setIsPaused(prev => !prev)\<close>.\<close>

definition pauseClick :: "GameState \<Rightarrow> GameState" where
  "pauseClick s = s\<lparr>isPaused := \<not> isPaused s\<rparr>"

section \<open>The tick\<close>

text \<open>The switch of lines 82 to 95, on a copy of the head.\<close>

fun moveHead :: "Direction \<Rightarrow> Position \<Rightarrow> Position" where
  "moveHead UP h = h\<lparr>y := y h - 1\<rparr>"
| "moveHead DOWN h = h\<lparr>y := y h + 1\<rparr>"
| "moveHead LEFT h = h\<lparr>x := x h - 1\<rparr>"
| "moveHead RIGHT h = h\<lparr>x := x h + 1\<rparr>"

text \<open>The tests of lines 98 to 103, of line 109 and of line 117.\<close>

definition wallCollision :: "Position \<Rightarrow> bool" where
  "wallCollision head \<longleftrightarrow> x head < 0 \<or> x head \<ge> GRID_SIZE \<or> y head < 0 \<or> y head \<ge> GRID_SIZE"

definition selfCollision :: "Position list \<Rightarrow> Position \<Rightarrow> bool" where
  "selfCollision prevSnake head \<longleftrightarrow>
     list_ex (\<lambda>segment. x segment = x head \<and> y segment = y head) prevSnake"

definition foodCollision :: "Position \<Rightarrow> Position \<Rightarrow> bool" where
  "foodCollision head fd \<longleftrightarrow> x head = x fd \<and> y head = y fd"

text \<open>
  \<^verbatim>\<open>moveSnake\<close> (lines 77 to 133): the updater passed to \<^verbatim>\<open>setSnake\<close> together with the
  setters it calls, as one state transition. \<open>prevSnake\<close> is the \<open>snake\<close> field of the
  state. \<^verbatim>\<open>direction\<close>, \<^verbatim>\<open>food\<close> and \<^verbatim>\<open>score\<close> are read from the closure of the effect,
  which is rebuilt whenever one of them changes, so they are the fields of the state;
  in particular \<^verbatim>\<open>score\<close> in line 124 is the score before \<^verbatim>\<open>setScore\<close> takes effect.
  \<^verbatim>\<open>snake\<close> is not among the dependencies of the effect: \<open>seen\<close> is the snake that the
  closure captured. \<open>rolls\<close> are the results of the calls of generateFood.

  On an empty list \<^verbatim>\<open>prevSnake[0]\<close> is undefined, the copied head has no coordinates,
  every comparison with it is false, and the list returned after \<^verbatim>\<open>pop\<close> is empty again:
  the state stays as it is.
\<close>

definition moveSnake :: "Position list \<Rightarrow> Position list \<Rightarrow> GameState \<Rightarrow> GameState option" where
  "moveSnake seen rolls s =
     (case snake s of
        [] \<Rightarrow> Some s
      | h # _ \<Rightarrow>
          let head = moveHead (direction s) h in
          if wallCollision head then Some (s\<lparr>gameOver := True\<rparr>)
          else if selfCollision (snake s) head then Some (s\<lparr>gameOver := True\<rparr>)
          else
            let newSnake = head # snake s in
            if foodCollision head (food s) then
              (case placeFood seen rolls of
                 None \<Rightarrow> None
               | Some newFood \<Rightarrow>
                   Some (s\<lparr>snake := newSnake, food := newFood, score := score s + 10,
                           speed := (if score s > 0 \<and> score s mod 50 = 0
                                     then max (speed s - 10) 50 else speed s)\<rparr>))
            else Some (s\<lparr>snake := butlast newSnake\<rparr>))"

text \<open>
  The effect of lines 140 to 144. It runs after every render in which \<^verbatim>\<open>gameOver\<close>,
  \<^verbatim>\<open>score\<close> or \<^verbatim>\<open>highScore\<close> has changed; applied a second time it changes nothing,
  so the model applies it after every transition.
\<close>

definition updateHighScore :: "GameState \<Rightarrow> GameState" where
  "updateHighScore s =
     (if gameOver s \<and> score s > highScore s then s\<lparr>highScore := score s\<rparr> else s)"

text \<open>One firing of the interval: the transition, then the high-score effect.\<close>

definition tick :: "Position list \<Rightarrow> Position list \<Rightarrow> GameState \<Rightarrow> GameState option" where
  "tick seen rolls s = map_option updateHighScore (moveSnake seen rolls s)"

text \<open>The Restart and Play Again buttons call \<^verbatim>\<open>initGame\<close>; the effect follows.\<close>

definition restart :: "Position \<Rightarrow> GameState \<Rightarrow> GameState" where
  "restart roll s = updateHighScore (initGame roll s)"

section \<open>The mounted component\<close>

text \<open>
  What can happen to the component: a key is pressed, one of the two buttons is clicked
  (Restart and Play Again both call \<^verbatim>\<open>initGame\<close>, whose roll comes with the event), or
  the interval fires (with the rolls that generateFood would return during that tick).
\<close>

datatype Event = KeyDown Key | PauseClick | RestartClick Position | Tick "Position list"

text \<open>
  Besides the state, the running interval holds the closure of the render in which the
  game-loop effect last ran; \<open>closureSnake\<close> is the \<^verbatim>\<open>snake\<close> of that render.
\<close>

record Component =
  state :: GameState
  closureSnake :: "Position list"

text \<open>The dependency list of the game-loop effect (line 137), compared between two renders.\<close>

definition depsChanged :: "GameState \<Rightarrow> GameState \<Rightarrow> bool" where
  "depsChanged old new \<longleftrightarrow>
     direction new \<noteq> direction old \<or> food new \<noteq> food old \<or> isPaused new \<noteq> isPaused old \<or>
     gameOver new \<noteq> gameOver old \<or> speed new \<noteq> speed old \<or> score new \<noteq> score old"

text \<open>
  The game-loop effect (lines 74 to 137): when a dependency has changed it clears the
  interval and, unless the game is paused or over, starts a new one whose closure holds
  the snake of the new render.
\<close>

definition gameLoop :: "bool \<Rightarrow> GameState \<Rightarrow> Position list \<Rightarrow> Position list" where
  "gameLoop changed new seen =
     (if changed \<and> \<not> (isPaused new \<or> gameOver new) then snake new else seen)"

text \<open>
  One event. No interval exists while the game is paused or over (line 75), so a tick
  finds nothing to run then. \<^verbatim>\<open>initGame\<close> stores a fresh food object, which always
  counts as a changed dependency.
\<close>

fun step :: "Event \<Rightarrow> Component \<Rightarrow> Component option" where
  "step (KeyDown k) c =
     (let s' = updateHighScore (handleKeyDown k (state c))
      in Some \<lparr>state = s', closureSnake = gameLoop (depsChanged (state c) s') s' (closureSnake c)\<rparr>)"
| "step PauseClick c =
     (let s' = updateHighScore (pauseClick (state c))
      in Some \<lparr>state = s', closureSnake = gameLoop (depsChanged (state c) s') s' (closureSnake c)\<rparr>)"
| "step (RestartClick roll) c =
     (let s' = restart roll (state c)
      in Some \<lparr>state = s', closureSnake = gameLoop True s' (closureSnake c)\<rparr>)"
| "step (Tick rolls) c =
     (if isPaused (state c) \<or> gameOver (state c) then Some c
      else case tick (closureSnake c) rolls (state c) of
        None \<Rightarrow> None
      | Some s' \<Rightarrow>
          Some \<lparr>state = s', closureSnake = gameLoop (depsChanged (state c) s') s' (closureSnake c)\<rparr>)"

fun run :: "Event list \<Rightarrow> Component \<Rightarrow> Component option" where
  "run [] c = Some c"
| "run (e # es) c = (case step e c of None \<Rightarrow> None | Some c' \<Rightarrow> run es c')"

text \<open>The component at mount: paused, so no interval exists yet.\<close>

definition mount :: Component where
  "mount = \<lparr>state = initialState, closureSnake = snake initialState\<rparr>"

section \<open>Vocabulary of the properties\<close>

text \<open>The direct opposite of a direction, and the key that requests a direction.\<close>

fun opposite :: "Direction \<Rightarrow> Direction" where
  "opposite UP = DOWN"
| "opposite DOWN = UP"
| "opposite LEFT = RIGHT"
| "opposite RIGHT = LEFT"

fun arrowKey :: "Direction \<Rightarrow> Key" where
  "arrowKey UP = ArrowUp"
| "arrowKey DOWN = ArrowDown"
| "arrowKey LEFT = ArrowLeft"
| "arrowKey RIGHT = ArrowRight"

text \<open>
  The new head of a tick, and the three kinds of tick of a state with a non-empty snake:
  one that ends the game, one that eats, one that only moves. \<open>newHead\<close> is read only
  where the snake is non-empty: every statement below that uses it or \<open>collides\<close>
  assumes so, and \<open>eats\<close> tests it first.
\<close>

definition newHead :: "GameState \<Rightarrow> Position" where
  "newHead s = moveHead (direction s) (hd (snake s))"

definition collides :: "GameState \<Rightarrow> bool" where
  "collides s \<longleftrightarrow> \<not> inGrid (newHead s) \<or> newHead s \<in> set (snake s)"

definition eats :: "GameState \<Rightarrow> bool" where
  "eats s \<longleftrightarrow> snake s \<noteq> [] \<and> \<not> collides s \<and> newHead s = food s"

text \<open>
  \<open>everOver\<close>: the game is over in some state that the run passes through, the first
  included. \<open>settled\<close>: the high-score effect has nothing left to do.
\<close>

fun everOver :: "Event list \<Rightarrow> Component \<Rightarrow> bool" where
  "everOver [] c = gameOver (state c)"
| "everOver (e # es) c =
     (gameOver (state c) \<or> (case step e c of None \<Rightarrow> False | Some c' \<Rightarrow> everOver es c'))"

definition settled :: "GameState \<Rightarrow> bool" where
  "settled s \<longleftrightarrow> \<not> (gameOver s \<and> highScore s < score s)"

section \<open>States and runs used as examples\<close>

text \<open>The head at the left wall, heading left.\<close>

definition atLeftWall :: GameState where
  "atLeftWall =
     \<lparr>snake = [\<lparr>x = 0, y = 5\<rparr>], food = \<lparr>x = 5, y = 5\<rparr>, direction = LEFT,
      gameOver = False, isPaused = False, score = 0, highScore = 0, speed = 150\<rparr>"

text \<open>The state right after a restart whose roll was the cell in front of the head.\<close>

definition beforeFood :: GameState where
  "beforeFood =
     \<lparr>snake = [\<lparr>x = 10, y = 10\<rparr>], food = \<lparr>x = 11, y = 10\<rparr>, direction = RIGHT,
      gameOver = False, isPaused = False, score = 0, highScore = 0, speed = 150\<rparr>"

text \<open>A snake of four cells in a square whose head is about to enter the cell of its tail.\<close>

definition chasingTail :: GameState where
  "chasingTail =
     \<lparr>snake = [\<lparr>x = 5, y = 5\<rparr>, \<lparr>x = 6, y = 5\<rparr>, \<lparr>x = 6, y = 6\<rparr>, \<lparr>x = 5, y = 6\<rparr>],
      food = \<lparr>x = 1, y = 1\<rparr>, direction = DOWN,
      gameOver = False, isPaused = False, score = 30, highScore = 0, speed = 150\<rparr>"

text \<open>A game with score 90 above the high score 50, one tick before the wall.\<close>

definition record90 :: GameState where
  "record90 =
     \<lparr>snake = [\<lparr>x = 0, y = 5\<rparr>], food = \<lparr>x = 5, y = 5\<rparr>, direction = LEFT,
      gameOver = False, isPaused = False, score = 90, highScore = 50, speed = 140\<rparr>"

text \<open>A restart followed by four ticks that each eat: the score reaches 40.\<close>

definition fiveEaten :: "Event list" where
  "fiveEaten =
     [RestartClick \<lparr>x = 11, y = 10\<rparr>, Tick [\<lparr>x = 12, y = 10\<rparr>], Tick [\<lparr>x = 13, y = 10\<rparr>],
      Tick [\<lparr>x = 14, y = 10\<rparr>], Tick [\<lparr>x = 15, y = 10\<rparr>]]"

text \<open>Unpause at mount and let the snake run from (10, 10) into the right wall.\<close>

definition toTheWall :: "Event list" where
  "toTheWall = PauseClick # replicate 10 (Tick [])"

text \<open>A restart whose roll is the cell in front of the head, and the tick that eats it.\<close>

definition afterFirstFood :: "Event list" where
  "afterFirstFood = [RestartClick \<lparr>x = 11, y = 10\<rparr>, Tick [\<lparr>x = 3, y = 4\<rparr>]]"

text \<open>The same, and then a restart in the middle of that game.\<close>

definition midGameRestart :: "Event list" where
  "midGameRestart = afterFirstFood @ [RestartClick \<lparr>x = 7, y = 7\<rparr>]"

text \<open>The range of the tick interval.\<close>

definition speedInRange :: "GameState \<Rightarrow> bool" where
  "speedInRange s \<longleftrightarrow> 50 \<le> speed s \<and> speed s \<le> 150"

section \<open>The tests of the source as set membership\<close>

text \<open>
  A Position has exactly the two coordinates, so the coordinate-wise comparisons of the
  source are equality of cells and its \<^verbatim>\<open>some\<close> calls are membership in the list.
\<close>

lemma Position_eq_iff: "(p::Position) = q \<longleftrightarrow> x p = x q \<and> y p = y q"
  by (cases p, cases q) simp

lemma selfCollision_iff: "selfCollision ps h \<longleftrightarrow> h \<in> set ps"
  by (induction ps) (auto simp: selfCollision_def Position_eq_iff)

lemma isPositionOccupied_iff: "isPositionOccupied seen p \<longleftrightarrow> p \<in> set seen"
  by (induction seen) (auto simp: isPositionOccupied_def Position_eq_iff)

lemma foodCollision_iff: "foodCollision h f \<longleftrightarrow> h = f"
  by (simp add: foodCollision_def Position_eq_iff)

lemma wallCollision_iff: "wallCollision h \<longleftrightarrow> \<not> inGrid h"
  by (auto simp: wallCollision_def inGrid_def)

lemma placeFood_Some: "placeFood seen rolls = Some f \<Longrightarrow> f \<in> set rolls \<and> f \<notin> set seen"
  by (induction rolls) (auto simp: isPositionOccupied_iff split: if_splits)

lemma placeFood_returns: "\<exists>r\<in>set rolls. r \<notin> set seen \<Longrightarrow> \<exists>f. placeFood seen rolls = Some f"
  by (induction rolls) (auto simp: isPositionOccupied_iff)

lemma placeFood_None: "\<forall>r\<in>set rolls. r \<in> set seen \<Longrightarrow> placeFood seen rolls = None"
  by (induction rolls) (auto simp: isPositionOccupied_iff)

subsection \<open>The four outcomes of a tick\<close>

lemma moveSnake_empty: "snake s = [] \<Longrightarrow> moveSnake seen rolls s = Some s"
  by (simp add: moveSnake_def)

lemma moveSnake_collides:
  "snake s \<noteq> [] \<Longrightarrow> collides s \<Longrightarrow> moveSnake seen rolls s = Some (s\<lparr>gameOver := True\<rparr>)"
  by (cases "snake s")
     (auto simp: moveSnake_def collides_def newHead_def Let_def wallCollision_iff selfCollision_iff)

lemma moveSnake_moves:
  "snake s \<noteq> [] \<Longrightarrow> \<not> collides s \<Longrightarrow> newHead s \<noteq> food s \<Longrightarrow>
   moveSnake seen rolls s = Some (s\<lparr>snake := newHead s # butlast (snake s)\<rparr>)"
  by (cases "snake s")
     (auto simp: moveSnake_def collides_def newHead_def Let_def wallCollision_iff selfCollision_iff
        foodCollision_iff)

lemma moveSnake_eats:
  "eats s \<Longrightarrow>
   moveSnake seen rolls s =
     (case placeFood seen rolls of
        None \<Rightarrow> None
      | Some newFood \<Rightarrow>
          Some (s\<lparr>snake := newHead s # snake s, food := newFood, score := score s + 10,
                  speed := (if score s > 0 \<and> score s mod 50 = 0
                            then max (speed s - 10) 50 else speed s)\<rparr>))"
  by (cases "snake s"; cases "placeFood seen rolls")
     (auto simp: eats_def moveSnake_def collides_def newHead_def Let_def wallCollision_iff
        selfCollision_iff foodCollision_iff)

lemma tick_cases:
  assumes "tick seen rolls s = Some s'"
  obtains (empty) "snake s = []" "s' = updateHighScore s"
  | (over) "snake s \<noteq> []" "collides s" "s' = updateHighScore (s\<lparr>gameOver := True\<rparr>)"
  | (move) "snake s \<noteq> []" "\<not> collides s" "\<not> eats s"
      "s' = updateHighScore (s\<lparr>snake := newHead s # butlast (snake s)\<rparr>)"
  | (eat) newFood where "eats s" "placeFood seen rolls = Some newFood"
      "s' = updateHighScore (s\<lparr>snake := newHead s # snake s, food := newFood, score := score s + 10,
                  speed := (if score s > 0 \<and> score s mod 50 = 0
                            then max (speed s - 10) 50 else speed s)\<rparr>)"
proof (cases "snake s = []")
  case True
  with assms show ?thesis by (intro empty) (auto simp: tick_def moveSnake_empty)
next
  case ne: False
  show ?thesis
  proof (cases "collides s")
    case True
    with ne assms show ?thesis by (intro over) (auto simp: tick_def moveSnake_collides)
  next
    case nc: False
    show ?thesis
    proof (cases "eats s")
      case True
      with assms show ?thesis
        by (auto simp: tick_def moveSnake_eats split: option.splits intro: eat)
    next
      case False
      with ne nc have "newHead s \<noteq> food s" by (simp add: eats_def)
      with ne nc False assms show ?thesis
        by (intro move) (auto simp: tick_def moveSnake_moves)
    qed
  qed
qed

subsection \<open>What the handlers and the tick keep\<close>

lemma updateHighScore_fields [simp]:
  "snake (updateHighScore s) = snake s" "food (updateHighScore s) = food s"
  "direction (updateHighScore s) = direction s" "gameOver (updateHighScore s) = gameOver s"
  "isPaused (updateHighScore s) = isPaused s" "score (updateHighScore s) = score s"
  "speed (updateHighScore s) = speed s"
  by (simp_all add: updateHighScore_def)

lemma updateHighScore_mono: "highScore s \<le> highScore (updateHighScore s)"
  by (simp add: updateHighScore_def)

lemma handleKeyDown_fields:
  "snake (handleKeyDown k s) = snake s" "food (handleKeyDown k s) = food s"
  "gameOver (handleKeyDown k s) = gameOver s" "score (handleKeyDown k s) = score s"
  "highScore (handleKeyDown k s) = highScore s" "speed (handleKeyDown k s) = speed s"
  by (cases k; simp add: handleKeyDown_def)+

lemma tick_highScore_mono: "tick seen rolls s = Some s' \<Longrightarrow> highScore s \<le> highScore s'"
  by (cases rule: tick_cases) (auto simp: updateHighScore_def)

lemma tick_speed:
  "tick seen rolls s = Some s' \<Longrightarrow>
   speed s' = (if eats s \<and> 0 < score s \<and> score s mod 50 = 0 then max (speed s - 10) 50 else speed s)"
  by (cases rule: tick_cases) (auto simp: eats_def)

subsection \<open>Invariants of runs\<close>

lemma step_highScore_mono: "step e c = Some c' \<Longrightarrow> highScore (state c) \<le> highScore (state c')"
proof (cases e)
  case (KeyDown k)
  assume "step e c = Some c'"
  with KeyDown have "state c' = updateHighScore (handleKeyDown k (state c))"
    by (auto simp: Let_def)
  then show ?thesis
    using updateHighScore_mono [of "handleKeyDown k (state c)"]
    by (simp add: handleKeyDown_fields)
next
  case PauseClick
  assume "step e c = Some c'"
  with PauseClick have "state c' = updateHighScore (pauseClick (state c))"
    by (auto simp: Let_def)
  then show ?thesis
    using updateHighScore_mono [of "pauseClick (state c)"] by (simp add: pauseClick_def)
next
  case (RestartClick roll)
  assume "step e c = Some c'"
  with RestartClick have "state c' = restart roll (state c)"
    by (auto simp: Let_def)
  then show ?thesis
    by (simp add: restart_def initGame_def updateHighScore_def)
next
  case (Tick rolls)
  assume "step e c = Some c'"
  with Tick show ?thesis
    by (auto split: if_splits option.splits dest: tick_highScore_mono)
qed

lemma run_highScore_mono: "run es c = Some c' \<Longrightarrow> highScore (state c) \<le> highScore (state c')"
proof (induction es arbitrary: c)
  case Nil
  then show ?case by simp
next
  case (Cons e es)
  then obtain c1 where 1: "step e c = Some c1" and 2: "run es c1 = Some c'"
    by (auto split: option.splits)
  from step_highScore_mono [OF 1] Cons.IH [OF 2] show ?case by simp
qed

lemma step_speedInRange:
  assumes "step e c = Some c'" and "speedInRange (state c)"
  shows "speedInRange (state c')"
proof (cases e)
  case (KeyDown k)
  with assms show ?thesis
    by (auto simp: Let_def speedInRange_def handleKeyDown_fields)
next
  case PauseClick
  with assms show ?thesis
    by (auto simp: Let_def speedInRange_def pauseClick_def)
next
  case (RestartClick roll)
  with assms show ?thesis
    by (auto simp: Let_def speedInRange_def restart_def initGame_def INITIAL_SPEED_def)
next
  case (Tick rolls)
  show ?thesis
  proof (cases "isPaused (state c) \<or> gameOver (state c)")
    case True
    with Tick assms show ?thesis by auto
  next
    case False
    with Tick assms obtain s' where t: "tick (closureSnake c) rolls (state c) = Some s'"
      and s': "state c' = s'"
      by (auto split: option.splits)
    from tick_speed [OF t] assms(2) s' show ?thesis
      by (auto simp: speedInRange_def split: if_splits)
  qed
qed

lemma run_speedInRange: "run es c = Some c' \<Longrightarrow> speedInRange (state c) \<Longrightarrow> speedInRange (state c')"
proof (induction es arbitrary: c)
  case Nil
  then show ?case by simp
next
  case (Cons e es)
  then obtain c1 where 1: "step e c = Some c1" and 2: "run es c1 = Some c'"
    by (auto split: option.splits)
  from Cons.IH [OF 2 step_speedInRange [OF 1 Cons.prems(2)]] show ?case .
qed

subsection \<open>The high score while the game is not over\<close>

lemma everOver_start: "\<not> everOver es c \<Longrightarrow> \<not> gameOver (state c)"
  by (cases es) auto

lemma step_highScore_playing:
  assumes "step e c = Some c'" and "\<not> gameOver (state c')"
  shows "highScore (state c') = highScore (state c)"
proof (cases e)
  case (KeyDown k)
  with assms(1) have "state c' = updateHighScore (handleKeyDown k (state c))"
    by (auto simp: Let_def)
  with assms(2) show ?thesis
    by (auto simp: updateHighScore_def handleKeyDown_fields split: if_splits)
next
  case PauseClick
  with assms show ?thesis
    by (auto simp: Let_def updateHighScore_def pauseClick_def split: if_splits)
next
  case (RestartClick roll)
  with assms show ?thesis
    by (auto simp: Let_def restart_def initGame_def updateHighScore_def)
next
  case (Tick rolls)
  show ?thesis
  proof (cases "isPaused (state c) \<or> gameOver (state c)")
    case True
    with Tick assms show ?thesis by auto
  next
    case False
    with Tick assms obtain s' where t: "tick (closureSnake c) rolls (state c) = Some s'"
      and s': "state c' = s'"
      by (auto split: option.splits)
    from t assms(2) s' show ?thesis
      by (cases rule: tick_cases) (auto simp: updateHighScore_def split: if_splits)
  qed
qed

lemma step_highScore_transition:
  assumes "step e c = Some c'" and "settled (state c)"
    and "highScore (state c') \<noteq> highScore (state c)"
  shows "\<not> gameOver (state c) \<and> gameOver (state c') \<and> highScore (state c') = score (state c)"
proof -
  from assms(1,3) have over': "gameOver (state c')"
    using step_highScore_playing by blast
  show ?thesis
  proof (cases e)
    case (KeyDown k)
    with assms(1) have "state c' = updateHighScore (handleKeyDown k (state c))"
      by (auto simp: Let_def)
    with assms(2,3) show ?thesis
      by (auto simp: updateHighScore_def handleKeyDown_fields settled_def split: if_splits)
  next
    case PauseClick
    with assms show ?thesis
      by (auto simp: Let_def updateHighScore_def pauseClick_def settled_def split: if_splits)
  next
    case (RestartClick roll)
    with assms show ?thesis
      by (auto simp: Let_def restart_def initGame_def updateHighScore_def)
  next
    case (Tick rolls)
    show ?thesis
    proof (cases "isPaused (state c) \<or> gameOver (state c)")
      case True
      with Tick assms show ?thesis by auto
    next
      case False
      with Tick assms obtain s' where t: "tick (closureSnake c) rolls (state c) = Some s'"
        and s': "state c' = s'"
        by (auto split: option.splits)
      from t False assms(3) s' over' show ?thesis
        by (cases rule: tick_cases) (auto simp: updateHighScore_def split: if_splits)
    qed
  qed
qed

lemma run_highScore_playing:
  "run es c = Some c' \<Longrightarrow> \<not> everOver es c \<Longrightarrow> highScore (state c') = highScore (state c)"
proof (induction es arbitrary: c)
  case Nil
  then show ?case by simp
next
  case (Cons e es)
  then obtain c1 where 1: "step e c = Some c1" and 2: "run es c1 = Some c'"
    by (auto split: option.splits)
  from Cons.prems(2) 1 have 3: "\<not> everOver es c1" by simp
  from step_highScore_playing [OF 1 everOver_start [OF 3]] Cons.IH [OF 2 3]
  show ?case by simp
qed

section \<open>The claims\<close>

text \<open>
  Claim C1 says that every food placement, at restart and after eating, yields a cell that
  is not on the snake (the new head included). The code places the food of a restart
  without any test, and after eating it tests the rolls against the snake that the closure
  of the interval captured, which holds neither the new head nor the cells entered since
  the interval was started. Evaluated here: a restart whose roll is (10, 10) puts the food
  under the one-cell snake; a tick that eats and rolls the cell of the new head keeps it;
  and after one plain move a tick that eats accepts a roll on the body.
\<close>

theorem food_placed_on_snake:
  "food (restart \<lparr>x = 10, y = 10\<rparr> s) \<in> set (snake (restart \<lparr>x = 10, y = 10\<rparr> s)) \<and>
   map_option (snake \<circ> state) (run [RestartClick \<lparr>x = 11, y = 10\<rparr>, Tick [\<lparr>x = 11, y = 10\<rparr>]] mount)
     = Some [\<lparr>x = 11, y = 10\<rparr>, \<lparr>x = 10, y = 10\<rparr>] \<and>
   map_option (food \<circ> state) (run [RestartClick \<lparr>x = 11, y = 10\<rparr>, Tick [\<lparr>x = 11, y = 10\<rparr>]] mount)
     = Some \<lparr>x = 11, y = 10\<rparr> \<and>
   map_option (snake \<circ> state)
     (run [RestartClick \<lparr>x = 11, y = 10\<rparr>, Tick [\<lparr>x = 13, y = 10\<rparr>], Tick [],
           Tick [\<lparr>x = 12, y = 10\<rparr>]] mount)
     = Some [\<lparr>x = 13, y = 10\<rparr>, \<lparr>x = 12, y = 10\<rparr>, \<lparr>x = 11, y = 10\<rparr>] \<and>
   map_option (food \<circ> state)
     (run [RestartClick \<lparr>x = 11, y = 10\<rparr>, Tick [\<lparr>x = 13, y = 10\<rparr>], Tick [],
           Tick [\<lparr>x = 12, y = 10\<rparr>]] mount)
     = Some \<lparr>x = 12, y = 10\<rparr>"
proof -
  have "food (restart \<lparr>x = 10, y = 10\<rparr> s) \<in> set (snake (restart \<lparr>x = 10, y = 10\<rparr> s))"
    by (simp add: restart_def initGame_def)
  moreover have "map_option (snake \<circ> state) (run [RestartClick \<lparr>x = 11, y = 10\<rparr>, Tick [\<lparr>x = 11, y = 10\<rparr>]] mount)
     = Some [\<lparr>x = 11, y = 10\<rparr>, \<lparr>x = 10, y = 10\<rparr>]" by code_simp
  moreover have "map_option (food \<circ> state) (run [RestartClick \<lparr>x = 11, y = 10\<rparr>, Tick [\<lparr>x = 11, y = 10\<rparr>]] mount)
     = Some \<lparr>x = 11, y = 10\<rparr>" by code_simp
  moreover have "map_option (snake \<circ> state)
     (run [RestartClick \<lparr>x = 11, y = 10\<rparr>, Tick [\<lparr>x = 13, y = 10\<rparr>], Tick [],
           Tick [\<lparr>x = 12, y = 10\<rparr>]] mount)
     = Some [\<lparr>x = 13, y = 10\<rparr>, \<lparr>x = 12, y = 10\<rparr>, \<lparr>x = 11, y = 10\<rparr>]" by code_simp
  moreover have "map_option (food \<circ> state)
     (run [RestartClick \<lparr>x = 11, y = 10\<rparr>, Tick [\<lparr>x = 13, y = 10\<rparr>], Tick [],
           Tick [\<lparr>x = 12, y = 10\<rparr>]] mount)
     = Some \<lparr>x = 12, y = 10\<rparr>" by code_simp
  ultimately show ?thesis by blast
qed

text \<open>
  Claim C2: a tick whose new head is outside the grid, or on a cell of the snake as it is
  before the tick (the tail included), sets \<open>gameOver\<close> and keeps snake, food, score,
  speed, direction and isPaused.
\<close>

theorem collision_tick_only_sets_gameOver:
  assumes "snake s \<noteq> []"
    and "\<not> inGrid (newHead s) \<or> newHead s \<in> set (snake s)"
  shows "moveSnake seen rolls s = Some (s\<lparr>gameOver := True\<rparr>) \<and>
    (\<exists>s'. tick seen rolls s = Some s' \<and> gameOver s' \<and> snake s' = snake s \<and> food s' = food s \<and>
       score s' = score s \<and> speed s' = speed s \<and> direction s' = direction s \<and>
       isPaused s' = isPaused s)"
proof -
  from assms have m: "moveSnake seen rolls s = Some (s\<lparr>gameOver := True\<rparr>)"
    by (simp add: moveSnake_collides collides_def)
  then have "tick seen rolls s = Some (updateHighScore (s\<lparr>gameOver := True\<rparr>))"
    by (simp add: tick_def)
  with m show ?thesis by (simp add: updateHighScore_def)
qed

theorem collision_tick_only_sets_gameOver_witness:
  "snake atLeftWall \<noteq> [] \<and> \<not> inGrid (newHead atLeftWall) \<and>
   moveSnake [] [] atLeftWall = Some (atLeftWall\<lparr>gameOver := True\<rparr>) \<and>
   snake chasingTail \<noteq> [] \<and> newHead chasingTail \<in> set (snake chasingTail) \<and>
   moveSnake [] [] chasingTail = Some (chasingTail\<lparr>gameOver := True\<rparr>)"
proof -
  have a: "snake atLeftWall \<noteq> []" by (simp add: atLeftWall_def)
  have b: "\<not> inGrid (newHead atLeftWall)"
    by (simp add: atLeftWall_def newHead_def inGrid_def)
  have c: "snake chasingTail \<noteq> []" by (simp add: chasingTail_def)
  have d: "newHead chasingTail \<in> set (snake chasingTail)"
    by (simp add: chasingTail_def newHead_def)
  from collision_tick_only_sets_gameOver [OF a, of "[]" "[]"] b
    collision_tick_only_sets_gameOver [OF c, of "[]" "[]"] d a c
  show ?thesis by simp
qed

text \<open>
  Claim C3: on a tick that does not end the game the snake keeps its length when the new
  head is not the food, and grows by one cell, the new head in front of the old snake,
  when it is; the second case returns as soon as one roll is free. No tick shortens the snake.
\<close>

theorem tick_length:
  assumes "snake s \<noteq> []" and "\<not> collides s"
  shows "(newHead s \<noteq> food s \<longrightarrow>
            (\<exists>s'. tick seen rolls s = Some s' \<and> snake s' = newHead s # butlast (snake s) \<and>
                   length (snake s') = length (snake s))) \<and>
         (newHead s = food s \<longrightarrow> (\<exists>r\<in>set rolls. \<not> isPositionOccupied seen r) \<longrightarrow>
            (\<exists>s'. tick seen rolls s = Some s' \<and> snake s' = newHead s # snake s \<and>
                   length (snake s') = length (snake s) + 1)) \<and>
         (\<forall>s'. tick seen rolls s = Some s' \<longrightarrow> length (snake s) \<le> length (snake s'))"
proof (intro conjI impI allI)
  assume "newHead s \<noteq> food s"
  with assms have "tick seen rolls s = Some (updateHighScore (s\<lparr>snake := newHead s # butlast (snake s)\<rparr>))"
    by (simp add: tick_def moveSnake_moves)
  with assms(1) show "\<exists>s'. tick seen rolls s = Some s' \<and> snake s' = newHead s # butlast (snake s) \<and>
                   length (snake s') = length (snake s)"
    by (cases "snake s") (simp_all add: updateHighScore_def)
next
  assume f: "newHead s = food s" and r: "\<exists>r\<in>set rolls. \<not> isPositionOccupied seen r"
  from r obtain newFood where p: "placeFood seen rolls = Some newFood"
    using placeFood_returns [of rolls seen] by (auto simp: isPositionOccupied_iff)
  from f assms have "eats s" by (simp add: eats_def)
  with p show "\<exists>s'. tick seen rolls s = Some s' \<and> snake s' = newHead s # snake s \<and>
                   length (snake s') = length (snake s) + 1"
    by (simp add: tick_def moveSnake_eats updateHighScore_def)
next
  fix s' assume "tick seen rolls s = Some s'"
  then show "length (snake s) \<le> length (snake s')"
    by (cases rule: tick_cases) (auto simp: updateHighScore_def)
qed

theorem tick_length_witness:
  "snake atLeftWall \<noteq> [] \<and> \<not> collides (atLeftWall\<lparr>direction := DOWN\<rparr>) \<and>
   newHead (atLeftWall\<lparr>direction := DOWN\<rparr>) \<noteq> food atLeftWall \<and>
   map_option snake (tick [] [] (atLeftWall\<lparr>direction := DOWN\<rparr>)) = Some [\<lparr>x = 0, y = 6\<rparr>] \<and>
   snake beforeFood \<noteq> [] \<and> \<not> collides beforeFood \<and> newHead beforeFood = food beforeFood \<and>
   \<not> isPositionOccupied (snake beforeFood) \<lparr>x = 3, y = 4\<rparr> \<and>
   map_option snake (tick (snake beforeFood) [\<lparr>x = 3, y = 4\<rparr>] beforeFood)
     = Some [\<lparr>x = 11, y = 10\<rparr>, \<lparr>x = 10, y = 10\<rparr>]"
proof -
  let ?m = "atLeftWall\<lparr>direction := DOWN\<rparr>"
  have a: "snake ?m \<noteq> []" by (simp add: atLeftWall_def)
  have b: "\<not> collides ?m" by (simp add: atLeftWall_def collides_def newHead_def inGrid_def GRID_SIZE_def)
  have c: "newHead ?m \<noteq> food ?m" by (simp add: atLeftWall_def newHead_def)
  have d: "snake beforeFood \<noteq> []" by (simp add: beforeFood_def)
  have e: "\<not> collides beforeFood"
    by (simp add: beforeFood_def collides_def newHead_def inGrid_def GRID_SIZE_def)
  have f: "newHead beforeFood = food beforeFood" by (simp add: beforeFood_def newHead_def)
  have g: "\<exists>r\<in>set [\<lparr>x = 3, y = 4\<rparr>]. \<not> isPositionOccupied (snake beforeFood) r"
    by (simp add: beforeFood_def isPositionOccupied_def)
  from tick_length [OF a b, of "[]" "[]"] c
  have 1: "map_option snake (tick [] [] ?m) = Some [\<lparr>x = 0, y = 6\<rparr>]"
    by (auto simp: atLeftWall_def newHead_def)
  from tick_length [OF d e, of "snake beforeFood" "[\<lparr>x = 3, y = 4\<rparr>]"] f g
  have 2: "map_option snake (tick (snake beforeFood) [\<lparr>x = 3, y = 4\<rparr>] beforeFood)
     = Some [\<lparr>x = 11, y = 10\<rparr>, \<lparr>x = 10, y = 10\<rparr>]"
    by (auto simp: beforeFood_def newHead_def)
  from a b c d e f g 1 2 show ?thesis by (simp add: atLeftWall_def)
qed

text \<open>
  Claim C4 as stated ties the speed-up to the score after the increment. On the code the
  sixth eaten food brings the score from 40 to 50 and the speed stays 150; the seventh
  brings it from 50 to 60 and the speed drops to 140.
\<close>

theorem speed_ramp_counterexample:
  "map_option (score \<circ> state) (run fiveEaten mount) = Some 40 \<and>
   map_option (speed \<circ> state) (run fiveEaten mount) = Some 150 \<and>
   map_option (score \<circ> state) (run (fiveEaten @ [Tick [\<lparr>x = 16, y = 10\<rparr>]]) mount) = Some 50 \<and>
   map_option (speed \<circ> state) (run (fiveEaten @ [Tick [\<lparr>x = 16, y = 10\<rparr>]]) mount) = Some 150 \<and>
   map_option (score \<circ> state)
     (run (fiveEaten @ [Tick [\<lparr>x = 16, y = 10\<rparr>], Tick [\<lparr>x = 17, y = 10\<rparr>]]) mount) = Some 60 \<and>
   map_option (speed \<circ> state)
     (run (fiveEaten @ [Tick [\<lparr>x = 16, y = 10\<rparr>], Tick [\<lparr>x = 17, y = 10\<rparr>]]) mount) = Some 140"
  by code_simp

text \<open>
  Claim C4, amended: the speed of every state reachable from mount is in [50, 150]; a tick
  sets it to max (speed - 10) 50 exactly when it eats and the score before the increment
  is a positive multiple of 50, and keeps it otherwise; key presses and the pause button
  keep it; restart sets it to 150.
\<close>

theorem speed_ramp:
  "(\<forall>c. run es mount = Some c \<longrightarrow> 50 \<le> speed (state c) \<and> speed (state c) \<le> 150) \<and>
   (\<forall>s'. tick seen rolls s = Some s' \<longrightarrow>
      speed s' = (if eats s \<and> 0 < score s \<and> score s mod 50 = 0
                  then max (speed s - 10) 50 else speed s)) \<and>
   speed (handleKeyDown k s) = speed s \<and> speed (pauseClick s) = speed s \<and>
   speed (restart roll s) = 150"
proof (intro conjI allI impI)
  fix c assume "run es mount = Some c"
  moreover have "speedInRange (state mount)"
    by (simp add: speedInRange_def mount_def initialState_def INITIAL_SPEED_def)
  ultimately have "speedInRange (state c)" by (rule run_speedInRange)
  then show "50 \<le> speed (state c)" and "speed (state c) \<le> 150"
    by (simp_all add: speedInRange_def)
next
  fix s' assume "tick seen rolls s = Some s'"
  then show "speed s' = (if eats s \<and> 0 < score s \<and> score s mod 50 = 0
                  then max (speed s - 10) 50 else speed s)"
    by (rule tick_speed)
qed (simp_all add: handleKeyDown_fields pauseClick_def restart_def initGame_def INITIAL_SPEED_def)

theorem speed_ramp_witness:
  "run (fiveEaten @ [Tick [\<lparr>x = 16, y = 10\<rparr>], Tick [\<lparr>x = 17, y = 10\<rparr>]]) mount \<noteq> None \<and>
   map_option (speed \<circ> state)
     (run (fiveEaten @ [Tick [\<lparr>x = 16, y = 10\<rparr>], Tick [\<lparr>x = 17, y = 10\<rparr>]]) mount) = Some 140 \<and>
   tick [] [\<lparr>x = 3, y = 4\<rparr>] (beforeFood\<lparr>score := 50\<rparr>)
     = Some (beforeFood\<lparr>snake := [\<lparr>x = 11, y = 10\<rparr>, \<lparr>x = 10, y = 10\<rparr>],
          food := \<lparr>x = 3, y = 4\<rparr>, score := 60, speed := 140\<rparr>) \<and>
   eats (beforeFood\<lparr>score := 50\<rparr>) \<and>
   speed (beforeFood\<lparr>snake := [\<lparr>x = 11, y = 10\<rparr>, \<lparr>x = 10, y = 10\<rparr>],
          food := \<lparr>x = 3, y = 4\<rparr>, score := 60, speed := 140\<rparr>)
     = max (speed (beforeFood\<lparr>score := 50\<rparr>) - 10) 50"
proof -
  let ?es = "fiveEaten @ [Tick [\<lparr>x = 16, y = 10\<rparr>], Tick [\<lparr>x = 17, y = 10\<rparr>]]"
  let ?s = "beforeFood\<lparr>score := 50\<rparr>"
  let ?s' = "beforeFood\<lparr>snake := [\<lparr>x = 11, y = 10\<rparr>, \<lparr>x = 10, y = 10\<rparr>],
          food := \<lparr>x = 3, y = 4\<rparr>, score := 60, speed := 140\<rparr>"
  have a: "map_option (speed \<circ> state) (run ?es mount) = Some 140" by code_simp
  then have b: "run ?es mount \<noteq> None" by auto
  have c: "tick [] [\<lparr>x = 3, y = 4\<rparr>] ?s = Some ?s'"
    by (simp add: tick_def moveSnake_def beforeFood_def wallCollision_def selfCollision_def
        foodCollision_def updateHighScore_def GRID_SIZE_def isPositionOccupied_def)
  have d: "eats ?s"
    by (simp add: eats_def collides_def beforeFood_def newHead_def inGrid_def GRID_SIZE_def)
  from speed_ramp [of ?es "[]" "[\<lparr>x = 3, y = 4\<rparr>]" ?s ArrowUp "\<lparr>x = 0, y = 0\<rparr>"] c d
  have "speed ?s' = max (speed ?s - 10) 50" by (simp add: beforeFood_def)
  with a b c d show ?thesis by blast
qed

text \<open>
  Claim C5 says that direction inputs are buffered, so that two consecutive ticks never run
  in opposite directions however many inputs arrive between them. The guards of the key
  handler test each key against the direction that the previous key has already replaced.
  Evaluated here: after the first food the snake is [(11, 10), (10, 10)] heading right; a
  single ArrowLeft is refused, but ArrowUp followed by ArrowLeft are both accepted with
  no tick between them, and the next tick turns the head back onto the second cell and
  ends the game. With the one-cell snake at mount the same two keys make the tick after a
  move to the right move back to the left.
\<close>

theorem two_keys_reverse_direction:
  "map_option (snake \<circ> state) (run afterFirstFood mount)
     = Some [\<lparr>x = 11, y = 10\<rparr>, \<lparr>x = 10, y = 10\<rparr>] \<and>
   map_option (direction \<circ> state) (run afterFirstFood mount) = Some RIGHT \<and>
   map_option (direction \<circ> state) (run (afterFirstFood @ [KeyDown ArrowLeft]) mount) = Some RIGHT \<and>
   map_option (direction \<circ> state)
     (run (afterFirstFood @ [KeyDown ArrowUp, KeyDown ArrowLeft]) mount) = Some LEFT \<and>
   map_option (snake \<circ> state)
     (run (afterFirstFood @ [KeyDown ArrowUp, KeyDown ArrowLeft]) mount)
     = Some [\<lparr>x = 11, y = 10\<rparr>, \<lparr>x = 10, y = 10\<rparr>] \<and>
   map_option (gameOver \<circ> state)
     (run (afterFirstFood @ [KeyDown ArrowUp, KeyDown ArrowLeft, Tick []]) mount) = Some True \<and>
   map_option (snake \<circ> state) (run [PauseClick, Tick []] mount) = Some [\<lparr>x = 11, y = 10\<rparr>] \<and>
   map_option (snake \<circ> state)
     (run [PauseClick, Tick [], KeyDown ArrowUp, KeyDown ArrowLeft, Tick []] mount)
     = Some [\<lparr>x = 10, y = 10\<rparr>]"
  by code_simp

text \<open>
  Claim C6: a key that requests the opposite of the current direction leaves the state as
  it is, and so does every key while the game is over.
\<close>

theorem opposite_direction_is_noop:
  "(d = opposite (direction s) \<longrightarrow> handleKeyDown (arrowKey d) s = s) \<and>
   (gameOver s \<longrightarrow> handleKeyDown k s = s)"
  by (cases d; cases "direction s") (simp_all add: handleKeyDown_def)

theorem opposite_direction_is_noop_witness:
  "LEFT = opposite (direction beforeFood) \<and> handleKeyDown (arrowKey LEFT) beforeFood = beforeFood \<and>
   gameOver (beforeFood\<lparr>gameOver := True\<rparr>) \<and>
   handleKeyDown ArrowUp (beforeFood\<lparr>gameOver := True\<rparr>) = beforeFood\<lparr>gameOver := True\<rparr>"
  using opposite_direction_is_noop [of LEFT beforeFood]
    opposite_direction_is_noop [of UP "beforeFood\<lparr>gameOver := True\<rparr>" ArrowUp]
  by (simp add: beforeFood_def handleKeyDown_def)

text \<open>
  Claim C7 says that toggling pause does nothing once the game is over, through every entry
  point. The key handler returns early then; the onClick of the Play/Pause button has no
  such test. Evaluated here: after the run into the wall the game is over and not paused;
  the space key leaves it so, the button sets isPaused.
\<close>

theorem pause_button_after_game_over:
  "map_option (gameOver \<circ> state) (run toTheWall mount) = Some True \<and>
   map_option (isPaused \<circ> state) (run toTheWall mount) = Some False \<and>
   map_option (isPaused \<circ> state) (run (toTheWall @ [KeyDown Space]) mount) = Some False \<and>
   map_option (isPaused \<circ> state) (run (toTheWall @ [PauseClick]) mount) = Some True \<and>
   map_option (gameOver \<circ> state) (run (toTheWall @ [PauseClick]) mount) = Some True"
  by code_simp

text \<open>
  Claim C8: a tick that ends the game with a score above the high score stores the score
  as the high score; along every run the high score does not decrease; restart keeps the
  high score, sets the score to 0 and clears \<open>gameOver\<close>.
\<close>

theorem highScore_never_decreases:
  "(\<forall>s'. tick seen rolls s = Some s' \<longrightarrow> \<not> gameOver s \<longrightarrow> gameOver s' \<longrightarrow>
      highScore s < score s' \<longrightarrow> highScore s' = score s') \<and>
   (\<forall>c'. run es c = Some c' \<longrightarrow> highScore (state c) \<le> highScore (state c')) \<and>
   highScore (restart roll s) = highScore s \<and> score (restart roll s) = 0 \<and>
   \<not> gameOver (restart roll s)"
proof -
  have "highScore s' = score s'"
    if "tick seen rolls s = Some s'" "\<not> gameOver s" "gameOver s'" "highScore s < score s'" for s'
    using that by (cases rule: tick_cases) (auto simp: updateHighScore_def)
  moreover have "highScore (state c) \<le> highScore (state c')" if "run es c = Some c'" for c'
    using that by (rule run_highScore_mono)
  ultimately show ?thesis
    by (simp add: restart_def initGame_def updateHighScore_def)
qed

theorem highScore_never_decreases_witness:
  "tick [] [] record90 = Some (record90\<lparr>gameOver := True, highScore := 90\<rparr>) \<and>
   \<not> gameOver record90 \<and> gameOver (record90\<lparr>gameOver := True, highScore := 90\<rparr>) \<and>
   highScore record90 < score (record90\<lparr>gameOver := True, highScore := 90\<rparr>) \<and>
   highScore (record90\<lparr>gameOver := True, highScore := 90\<rparr>) = 90 \<and>
   run [Tick [], RestartClick \<lparr>x = 3, y = 4\<rparr>] \<lparr>state = record90, closureSnake = []\<rparr>
     = Some \<lparr>state = restart \<lparr>x = 3, y = 4\<rparr> (record90\<lparr>gameOver := True, highScore := 90\<rparr>),
             closureSnake = [\<lparr>x = 10, y = 10\<rparr>]\<rparr> \<and>
   highScore record90
     \<le> highScore (restart \<lparr>x = 3, y = 4\<rparr> (record90\<lparr>gameOver := True, highScore := 90\<rparr>))"
proof -
  let ?o = "record90\<lparr>gameOver := True, highScore := 90\<rparr>"
  let ?c = "\<lparr>state = record90, closureSnake = []\<rparr>"
  let ?c' = "\<lparr>state = restart \<lparr>x = 3, y = 4\<rparr> ?o, closureSnake = [\<lparr>x = 10, y = 10\<rparr>]\<rparr>"
  have a: "tick [] [] record90 = Some ?o"
    by (simp add: tick_def moveSnake_def record90_def wallCollision_def updateHighScore_def)
  have b: "\<not> gameOver record90" "gameOver ?o" "highScore record90 < score ?o"
    by (simp_all add: record90_def)
  have c: "run [Tick [], RestartClick \<lparr>x = 3, y = 4\<rparr>] ?c = Some ?c'"
    using a b(1) by (simp add: record90_def gameLoop_def depsChanged_def restart_def initGame_def
        updateHighScore_def)
  from highScore_never_decreases [of "[]" "[]" record90 "[Tick [], RestartClick \<lparr>x = 3, y = 4\<rparr>]" ?c
      "\<lparr>x = 3, y = 4\<rparr>"] a b c
  have "highScore ?o = score ?o" and "highScore (state ?c) \<le> highScore (state ?c')"
    by blast+
  with a b c show ?thesis by (simp add: record90_def)
qed

text \<open>
  Claim C9: restart is available in every state of the component and yields the default
  state but for the roll and the high score, which it keeps. The high score is written
  nowhere else during play: an event after which the game is not over keeps it; once the
  effect has settled, an event changes it only by taking the game from not over to over,
  and then to the score of that moment; and a run on which the game is never over keeps
  it, whatever score its restarts drop.
\<close>

theorem restart_in_every_state:
  "restart roll s =
     \<lparr>snake = [\<lparr>x = 10, y = 10\<rparr>], food = roll, direction = RIGHT, gameOver = False,
      isPaused = False, score = 0, highScore = highScore s, speed = 150\<rparr> \<and>
   (\<exists>c'. step (RestartClick roll) c = Some c' \<and> state c' = restart roll (state c)) \<and>
   (\<forall>c'. step e c = Some c' \<longrightarrow> \<not> gameOver (state c') \<longrightarrow>
      highScore (state c') = highScore (state c)) \<and>
   (\<forall>c'. step e c = Some c' \<longrightarrow> settled (state c) \<longrightarrow>
      highScore (state c') \<noteq> highScore (state c) \<longrightarrow>
      \<not> gameOver (state c) \<and> gameOver (state c') \<and> highScore (state c') = score (state c)) \<and>
   (\<forall>c'. run es c = Some c' \<longrightarrow> \<not> everOver es c \<longrightarrow>
      highScore (state c') = highScore (state c))"
proof -
  have "restart roll s =
     \<lparr>snake = [\<lparr>x = 10, y = 10\<rparr>], food = roll, direction = RIGHT, gameOver = False,
      isPaused = False, score = 0, highScore = highScore s, speed = 150\<rparr>"
    by (simp add: restart_def initGame_def updateHighScore_def INITIAL_SPEED_def)
  moreover have "\<exists>c'. step (RestartClick roll) c = Some c' \<and> state c' = restart roll (state c)"
    by (simp add: Let_def)
  ultimately show ?thesis
    using step_highScore_playing [of e c] step_highScore_transition [of e c]
      run_highScore_playing [of es c]
    by blast
qed

theorem restart_in_every_state_witness:
  "map_option (score \<circ> state) (run afterFirstFood mount) = Some 10 \<and>
   map_option (highScore \<circ> state) (run afterFirstFood mount) = Some 0 \<and>
   map_option (gameOver \<circ> state) (run afterFirstFood mount) = Some False \<and>
   \<not> everOver midGameRestart mount \<and>
   map_option (score \<circ> state) (run midGameRestart mount) = Some 0 \<and>
   map_option (highScore \<circ> state) (run midGameRestart mount) = Some 0 \<and>
   step (Tick []) \<lparr>state = record90, closureSnake = []\<rparr>
     = Some \<lparr>state = record90\<lparr>gameOver := True, highScore := 90\<rparr>, closureSnake = []\<rparr> \<and>
   settled record90 \<and> \<not> gameOver record90 \<and> score record90 = 90 \<and> highScore record90 = 50"
proof -
  let ?c = "\<lparr>state = record90, closureSnake = []\<rparr>"
  let ?c' = "\<lparr>state = record90\<lparr>gameOver := True, highScore := 90\<rparr>, closureSnake = []\<rparr>"
  have a: "map_option (score \<circ> state) (run afterFirstFood mount) = Some 10"
    "map_option (highScore \<circ> state) (run afterFirstFood mount) = Some 0"
    "map_option (gameOver \<circ> state) (run afterFirstFood mount) = Some False"
    by code_simp+
  have b: "\<not> everOver midGameRestart mount" by code_simp
  have c: "map_option (score \<circ> state) (run midGameRestart mount) = Some 0" by code_simp
  then obtain c' where r: "run midGameRestart mount = Some c'" by auto
  from restart_in_every_state [of "\<lparr>x = 7, y = 7\<rparr>" record90 mount "Tick []" midGameRestart] r b
  have "highScore (state c') = highScore (state mount)" by blast
  with r have d: "map_option (highScore \<circ> state) (run midGameRestart mount) = Some 0"
    by (simp add: mount_def initialState_def)
  have e: "step (Tick []) ?c = Some ?c'" by code_simp
  have f: "settled record90" "\<not> gameOver record90" "score record90 = 90" "highScore record90 = 50"
    by (simp_all add: settled_def record90_def)
  from restart_in_every_state [of "\<lparr>x = 7, y = 7\<rparr>" record90 ?c "Tick []" "[]"] e f(1)
  have g: "\<not> gameOver (state ?c) \<and> gameOver (state ?c') \<and> highScore (state ?c') = score (state ?c)"
    by (simp add: record90_def)
  from a b c d e f g show ?thesis by blast
qed

text \<open>
  Claim C10: at mount the food is the cell (5, 5), a constant of the component. Afterwards
  the food is replaced only by a roll: by restart, and by a tick that eats. Key presses,
  the pause button, the high-score effect and every other tick keep it.
\<close>

theorem initial_food_is_fixed:
  "food initialState = \<lparr>x = 5, y = 5\<rparr> \<and> food (state mount) = \<lparr>x = 5, y = 5\<rparr> \<and>
   food (handleKeyDown k s) = food s \<and> food (pauseClick s) = food s \<and>
   food (updateHighScore s) = food s \<and>
   (\<forall>s'. tick seen rolls s = Some s' \<longrightarrow> \<not> eats s \<longrightarrow> food s' = food s) \<and>
   (\<forall>s'. tick seen rolls s = Some s' \<longrightarrow> eats s \<longrightarrow> food s' \<in> set rolls) \<and>
   food (restart roll s) = roll"
proof -
  have "food s' = food s" if "tick seen rolls s = Some s'" "\<not> eats s" for s'
    using that by (cases rule: tick_cases) (auto simp: updateHighScore_def)
  moreover have "food s' \<in> set rolls" if "tick seen rolls s = Some s'" "eats s" for s'
    using that by (cases rule: tick_cases) (auto simp: updateHighScore_def eats_def dest: placeFood_Some)
  moreover have "food (handleKeyDown k s) = food s"
    by (cases k) (simp_all add: handleKeyDown_def)
  ultimately show ?thesis
    by (simp add: initialState_def mount_def pauseClick_def updateHighScore_def restart_def
        initGame_def)
qed

theorem initial_food_is_fixed_witness:
  "tick [] [] (initialState\<lparr>isPaused := False\<rparr>)
     = Some (initialState\<lparr>isPaused := False, snake := [\<lparr>x = 11, y = 10\<rparr>]\<rparr>) \<and>
   \<not> eats (initialState\<lparr>isPaused := False\<rparr>) \<and>
   food (initialState\<lparr>isPaused := False, snake := [\<lparr>x = 11, y = 10\<rparr>]\<rparr>) = \<lparr>x = 5, y = 5\<rparr> \<and>
   tick [\<lparr>x = 10, y = 10\<rparr>] [\<lparr>x = 3, y = 4\<rparr>] beforeFood
     = Some (beforeFood\<lparr>snake := [\<lparr>x = 11, y = 10\<rparr>, \<lparr>x = 10, y = 10\<rparr>],
          food := \<lparr>x = 3, y = 4\<rparr>, score := 10\<rparr>) \<and>
   eats beforeFood"
proof -
  let ?s = "initialState\<lparr>isPaused := False\<rparr>"
  let ?s' = "initialState\<lparr>isPaused := False, snake := [\<lparr>x = 11, y = 10\<rparr>]\<rparr>"
  let ?t' = "beforeFood\<lparr>snake := [\<lparr>x = 11, y = 10\<rparr>, \<lparr>x = 10, y = 10\<rparr>],
          food := \<lparr>x = 3, y = 4\<rparr>, score := 10\<rparr>"
  have a: "tick [] [] ?s = Some ?s'"
    by (simp add: tick_def moveSnake_def initialState_def wallCollision_def selfCollision_def
        foodCollision_def updateHighScore_def GRID_SIZE_def)
  have b: "\<not> eats ?s"
    by (simp add: eats_def initialState_def newHead_def)
  have c: "tick [\<lparr>x = 10, y = 10\<rparr>] [\<lparr>x = 3, y = 4\<rparr>] beforeFood = Some ?t'"
    by (simp add: tick_def moveSnake_def beforeFood_def wallCollision_def selfCollision_def
        foodCollision_def updateHighScore_def GRID_SIZE_def isPositionOccupied_def)
  have d: "eats beforeFood"
    by (simp add: eats_def collides_def beforeFood_def newHead_def inGrid_def GRID_SIZE_def)
  from initial_food_is_fixed [of ArrowUp ?s "[]" "[]" "\<lparr>x = 0, y = 0\<rparr>"] a b
  have "food ?s' = \<lparr>x = 5, y = 5\<rparr>" by (simp add: initialState_def)
  moreover
  from initial_food_is_fixed [of ArrowUp beforeFood "[\<lparr>x = 10, y = 10\<rparr>]" "[\<lparr>x = 3, y = 4\<rparr>]" "\<lparr>x = 0, y = 0\<rparr>"] c d
  have "food ?t' \<in> set [\<lparr>x = 3, y = 4\<rparr>]" by blast
  ultimately show ?thesis using a b c d by simp
qed

end
